theory Spec2Isabelle
  imports Complex_Main "HOL-Library.Word"
begin

section \<open>JavaScript strings\<close>

text \<open>
  A JavaScript string is a sequence of UTF-16 code units; \<open>length\<close>, \<open>includes\<close>,
  \<open>trim\<close> and the regular expressions of the source (none has the \<open>u\<close> flag) all work
  on code units.
\<close>

type_synonym code_unit = "16 word"
type_synonym jstring = "code_unit list"

definition jstr :: "string \<Rightarrow> jstring" where
  "jstr s = map of_char s"

definition is_digit :: "code_unit \<Rightarrow> bool" where
  \<comment> \<open>the class \<open>\d\<close>\<close>
  "is_digit c = (0x30 \<le> c \<and> c \<le> 0x39)"

definition is_upper :: "code_unit \<Rightarrow> bool" where
  "is_upper c = (0x41 \<le> c \<and> c \<le> 0x5A)"

definition is_lower :: "code_unit \<Rightarrow> bool" where
  "is_lower c = (0x61 \<le> c \<and> c \<le> 0x7A)"

definition is_letter :: "code_unit \<Rightarrow> bool" where
  \<comment> \<open>the class \<open>[a-zA-Z]\<close>, which is also \<open>[a-z]\<close> under the \<open>i\<close> flag: without the
      \<open>u\<close> flag no code unit above 127 is canonicalised to an ASCII letter\<close>
  "is_letter c = (is_upper c \<or> is_lower c)"

definition is_word :: "code_unit \<Rightarrow> bool" where
  \<comment> \<open>the class \<open>\w\<close>\<close>
  "is_word c = (is_letter c \<or> is_digit c \<or> c = 0x5F)"

definition is_space :: "code_unit \<Rightarrow> bool" where
  \<comment> \<open>the class \<open>\s\<close>, which is also what \<open>trim\<close> strips: white space and line terminators\<close>
  "is_space c = (c \<in> {0x09, 0x0A, 0x0B, 0x0C, 0x0D, 0x20, 0xA0, 0x1680, 0x2028, 0x2029,
                       0x202F, 0x205F, 0x3000, 0xFEFF}
                 \<or> (0x2000 \<le> c \<and> c \<le> 0x200A))"

definition lower_unit :: "code_unit \<Rightarrow> code_unit" where
  "lower_unit c = (if is_upper c then c + 0x20 else c)"

definition toLowerCase :: "jstring \<Rightarrow> jstring" where
  \<comment> \<open>\<open>String.prototype.toLowerCase\<close> as it acts on the ASCII letters; other code units
      are kept. The source applies it to the letters \<open>[a-z]{2,3}\<close> has matched, where this
      is exact, and to MIME types before a search for ASCII substrings. Of the code units
      above 127 the full mapping sends only U+212A to an ASCII letter, k, and U+0130 to i
      followed by U+0307; neither can complete one of the six substrings searched for.\<close>
  "toLowerCase s = map lower_unit s"

definition canonicalize :: "code_unit \<Rightarrow> code_unit" where
  \<comment> \<open>case folding of the \<open>i\<close> flag, as far as a comparison with an ASCII pattern
      character can see it\<close>
  "canonicalize c = (if is_lower c then c - 0x20 else c)"

fun startsWith :: "jstring \<Rightarrow> jstring \<Rightarrow> bool" where
  "startsWith t [] = True"
| "startsWith [] (p # ps) = False"
| "startsWith (c # cs) (p # ps) = (c = p \<and> startsWith cs ps)"

fun includes_str :: "jstring \<Rightarrow> jstring \<Rightarrow> bool" where
  "includes_str [] p = startsWith [] p"
| "includes_str (c # cs) p = (startsWith (c # cs) p \<or> includes_str cs p)"

fun split :: "code_unit \<Rightarrow> jstring \<Rightarrow> jstring list" where
  "split sep [] = [[]]"
| "split sep (c # cs) =
     (if c = sep then [] # split sep cs
      else (case split sep cs of [] \<Rightarrow> [[c]] | w # ws \<Rightarrow> (c # w) # ws))"

definition trim :: "jstring \<Rightarrow> jstring" where
  "trim s = rev (dropWhile is_space (rev (dropWhile is_space s)))"

definition some :: "('a \<Rightarrow> bool) \<Rightarrow> 'a list \<Rightarrow> bool" where
  \<comment> \<open>\<open>Array.prototype.some\<close>, and \<open>RegExp.prototype.test\<close> of a one-character class\<close>
  "some p xs = list_ex p xs"


section \<open>Format validation\<close>

definition SUPPORTED_MIME_TYPES :: "jstring list" where
  "SUPPORTED_MIME_TYPES =
     [jstr ''image/png'', jstr ''image/jpeg'', jstr ''image/jpg'',
      jstr ''image/webp'', jstr ''image/heic'', jstr ''image/heif'']"

definition subtype :: "jstring \<Rightarrow> jstring" where
  \<comment> \<open>\<open>type.split("/")[1]\<close>; a missing element is \<open>undefined\<close>, which \<open>includes\<close>
      would search for as the string "undefined"\<close>
  "subtype ty = (case split 0x2F ty of _ # s # _ \<Rightarrow> s | _ \<Rightarrow> jstr ''undefined'')"

definition validateImageFormat :: "jstring \<Rightarrow> bool" where
  "validateImageFormat mimeType =
     some (\<lambda>ty. includes_str (toLowerCase mimeType) (subtype ty)) SUPPORTED_MIME_TYPES"


section \<open>Heuristic language detection\<close>

definition is_cjk :: "code_unit \<Rightarrow> bool" where
  "is_cjk c = (0x4E00 \<le> c \<and> c \<le> 0x9FFF)"

definition is_kana :: "code_unit \<Rightarrow> bool" where
  "is_kana c = ((0x3040 \<le> c \<and> c \<le> 0x309F) \<or> (0x30A0 \<le> c \<and> c \<le> 0x30FF))"

definition is_hangul :: "code_unit \<Rightarrow> bool" where
  "is_hangul c = (0xAC00 \<le> c \<and> c \<le> 0xD7A3)"

definition is_arabic :: "code_unit \<Rightarrow> bool" where
  "is_arabic c = (0x0600 \<le> c \<and> c \<le> 0x06FF)"

definition is_cyrillic :: "code_unit \<Rightarrow> bool" where
  "is_cyrillic c = (0x0400 \<le> c \<and> c \<le> 0x04FF)"

definition is_thai :: "code_unit \<Rightarrow> bool" where
  "is_thai c = (0x0E00 \<le> c \<and> c \<le> 0x0E7F)"

definition is_hebrew :: "code_unit \<Rightarrow> bool" where
  "is_hebrew c = (0x0590 \<le> c \<and> c \<le> 0x05FF)"

definition detectLanguageFromText :: "jstring \<Rightarrow> jstring" where
  "detectLanguageFromText text =
     (if some is_cjk text then jstr ''zh''
      else if some is_kana text then jstr ''ja''
      else if some is_hangul text then jstr ''ko''
      else if some is_arabic text then jstr ''ar''
      else if some is_cyrillic text then jstr ''ru''
      else if some is_thai text then jstr ''th''
      else if some is_hebrew text then jstr ''he''
      else jstr ''en'')"


section \<open>Heuristic confidence\<close>

definition is_punctuation :: "code_unit \<Rightarrow> bool" where
  \<comment> \<open>the class \<open>[.,!?;:]\<close>\<close>
  "is_punctuation c = (c \<in> {0x2E, 0x2C, 0x21, 0x3F, 0x3B, 0x3A})"

definition is_plausible :: "code_unit \<Rightarrow> bool" where
  \<comment> \<open>the complement of the class of \<open>garbledPattern\<close>: \<open>\w\<close>, \<open>\s\<close>, U+00C0 to U+017F,
      U+4E00 to U+9FFF, U+3040 to U+30FF, U+AC00 to U+D7A3 and
      \<^verbatim>\<open>. , ! ? ; : ( ) [ ] { } - ' " / \\<close>\<close>
  "is_plausible c =
     (is_word c \<or> is_space c \<or> (0x00C0 \<le> c \<and> c \<le> 0x017F) \<or> (0x4E00 \<le> c \<and> c \<le> 0x9FFF)
      \<or> (0x3040 \<le> c \<and> c \<le> 0x30FF) \<or> (0xAC00 \<le> c \<and> c \<le> 0xD7A3)
      \<or> c \<in> {0x2E, 0x2C, 0x21, 0x3F, 0x3B, 0x3A, 0x28, 0x29, 0x5B, 0x5D, 0x7B, 0x7D,
               0x2D, 0x27, 0x22, 0x2F, 0x5C})"

definition estimateConfidence :: "jstring \<Rightarrow> int" where
  "estimateConfidence text =
     (if text = [] then 0
      else
        let confidence = 80;
            confidence = (if length text > 10 then confidence + 5 else confidence);
            confidence = (if length text > 50 then confidence + 5 else confidence);
            confidence = (if length text > 100 then confidence + 5 else confidence);
            hasLetters = some is_letter text;
            hasNumbers = some is_digit text;
            hasSpaces = some is_space text;
            hasPunctuation = some is_punctuation text;
            confidence = (if hasLetters \<and> hasSpaces then confidence + 5 else confidence);
            confidence = (if hasNumbers then confidence + 2 else confidence);
            confidence = (if hasPunctuation then confidence + 3 else confidence);
            garbledPattern = some (\<lambda>c. \<not> is_plausible c) text;
            confidence = (if garbledPattern \<and> length text < 20 then confidence - 10
                          else confidence)
        in min 100 (max 0 confidence))"


section \<open>Response parser\<close>

text \<open>
  The two marker expressions of the source are matched by backtracking from the leftmost
  start position. In both, each greedy part is followed by a part that accepts none of the
  characters the greedy part gave up (\<open>\s*\<close> before a letter or a digit, \<open>\d+\<close> before
  an optional fraction), so the first attempt at a start position decides it, and the
  functions below make that attempt.
\<close>

fun label_at :: "jstring \<Rightarrow> jstring \<Rightarrow> jstring option" where
  \<comment> \<open>the literal \<open>lbl\<close> at the start of \<open>t\<close>, ignoring case: what follows it\<close>
  "label_at [] t = Some t"
| "label_at (l # ls) [] = None"
| "label_at (l # ls) (c # cs) =
     (if canonicalize c = canonicalize l then label_at ls cs else None)"

definition language_at :: "jstring \<Rightarrow> (jstring \<times> nat) option" where
  \<comment> \<open>\<open>/LANGUAGE:\s*([a-z]{2,3})/i\<close> at the start of \<open>t\<close>: the group and the length matched\<close>
  "language_at t =
     (case label_at (jstr ''LANGUAGE:'') t of
        None \<Rightarrow> None
      | Some r \<Rightarrow>
          let r' = dropWhile is_space r;
              code = takeWhile is_letter (take 3 r')
          in if 2 \<le> length code then Some (code, length t - length r' + length code)
             else None)"

definition language_line_at :: "jstring \<Rightarrow> (jstring \<times> nat) option" where
  \<comment> \<open>\<open>/LANGUAGE:\s*[a-z]{2,3}\s*/i\<close> at the start of \<open>t\<close>\<close>
  "language_line_at t =
     (case language_at t of
        None \<Rightarrow> None
      | Some (code, n) \<Rightarrow> Some (code, n + length (takeWhile is_space (drop n t))))"

definition number_at :: "jstring \<Rightarrow> jstring option" where
  \<comment> \<open>\<open>\d+(?:\.\d+)?\<close> at the start of \<open>r\<close>\<close>
  "number_at r =
     (let ds = takeWhile is_digit r; rest = dropWhile is_digit r
      in if ds = [] then None
         else (case rest of
                 d # f # _ \<Rightarrow>
                   if d = 0x2E \<and> is_digit f then Some (ds @ d # takeWhile is_digit (tl rest))
                   else Some ds
               | _ \<Rightarrow> Some ds))"

definition confidence_at :: "jstring \<Rightarrow> (jstring \<times> nat) option" where
  \<comment> \<open>\<open>/CONFIDENCE:\s*(\d+(?:\.\d+)?)/i\<close> at the start of \<open>t\<close>\<close>
  "confidence_at t =
     (case label_at (jstr ''CONFIDENCE:'') t of
        None \<Rightarrow> None
      | Some r \<Rightarrow>
          let r' = dropWhile is_space r
          in (case number_at r' of
                None \<Rightarrow> None
              | Some num \<Rightarrow> Some (num, length t - length r' + length num)))"

definition confidence_line_at :: "jstring \<Rightarrow> (jstring \<times> nat) option" where
  \<comment> \<open>\<open>/CONFIDENCE:\s*\d+(?:\.\d+)?\s*/i\<close> at the start of \<open>t\<close>\<close>
  "confidence_line_at t =
     (case confidence_at t of
        None \<Rightarrow> None
      | Some (num, n) \<Rightarrow> Some (num, n + length (takeWhile is_space (drop n t))))"

fun search :: "(jstring \<Rightarrow> ('a \<times> nat) option) \<Rightarrow> jstring \<Rightarrow> (nat \<times> 'a \<times> nat) option" where
  \<comment> \<open>the leftmost match: its index, its group and its length\<close>
  "search m [] = map_option (Pair 0) (m [])"
| "search m (c # cs) =
     (case m (c # cs) of
        Some r \<Rightarrow> Some (0, r)
      | None \<Rightarrow> map_option (\<lambda>(i, r). (Suc i, r)) (search m cs))"

definition match :: "(jstring \<Rightarrow> ('a \<times> nat) option) \<Rightarrow> jstring \<Rightarrow> 'a option" where
  \<comment> \<open>\<open>text.match(re)\<close> of an expression without the \<open>g\<close> flag: group 1 of the leftmost match\<close>
  "match m t = map_option (\<lambda>(i, g, n). g) (search m t)"

definition replace_empty :: "(jstring \<Rightarrow> ('a \<times> nat) option) \<Rightarrow> jstring \<Rightarrow> jstring" where
  \<comment> \<open>\<open>text.replace(re, "")\<close> of an expression without the \<open>g\<close> flag: the leftmost match
      is cut out, later ones stay\<close>
  "replace_empty m t =
     (case search m t of None \<Rightarrow> t | Some (i, g, n) \<Rightarrow> take i t @ drop (i + n) t)"

definition digit_value :: "code_unit \<Rightarrow> nat" where
  "digit_value c = unat c - 0x30"

definition digits_value :: "jstring \<Rightarrow> nat" where
  "digits_value ds = foldl (\<lambda>a c. 10 * a + digit_value c) 0 ds"

definition parseFloat :: "jstring \<Rightarrow> rat" where
  \<comment> \<open>\<open>parseFloat\<close> on what group 1 of the confidence expression can hold, digits with an
      optional fraction: the decimal value. JavaScript rounds it to the nearest double,
      which is the same number for the integers below \<open>2 ^ 53\<close>.\<close>
  "parseFloat s =
     (let ip = takeWhile is_digit s; fp = drop (Suc (length ip)) s
      in of_nat (digits_value ip) + of_nat (digits_value fp) / 10 ^ length fp)"

record parsed =
  extractedText :: jstring
  language :: jstring
  confidence :: rat

definition parseExtractionResponse :: "jstring \<Rightarrow> parsed" where
  "parseExtractionResponse text =
     (let languageMatch = match language_at text;
          confidenceMatch = match confidence_at text;
          extractedText = text;
          language = jstr ''en'';
          confidence = 95;
          (language, extractedText) =
             (case languageMatch of
                None \<Rightarrow> (language, extractedText)
              | Some g \<Rightarrow> (toLowerCase g, replace_empty language_line_at extractedText));
          (confidence, extractedText) =
             (case confidenceMatch of
                None \<Rightarrow> (confidence, extractedText)
              | Some g \<Rightarrow> (parseFloat g, replace_empty confidence_line_at extractedText));
          extractedText = trim extractedText;
          language = (if languageMatch = None then detectLanguageFromText extractedText
                      else language);
          confidence = (if confidenceMatch = None then of_int (estimateConfidence extractedText)
                        else confidence)
      in \<lparr>extractedText = extractedText, language = language, confidence = confidence\<rparr>)"


section \<open>Error classification and the attempt loop of the extraction\<close>

datatype js_error =
    APIError "int option" "jstring option" jstring
      \<comment> \<open>an \<open>OpenAI.APIError\<close>: \<open>status\<close>, the \<open>retry-after\<close> header, \<open>message\<close>\<close>
  | OtherError jstring
      \<comment> \<open>any other instance of \<open>Error\<close>, with its \<open>message\<close>\<close>
  | NonError jstring
      \<comment> \<open>a thrown value that is not an \<open>Error\<close>, with \<open>String(error)\<close>\<close>

fun toString :: "nat \<Rightarrow> jstring" where
  "toString n = (if n < 10 then [0x30 + of_nat n]
                 else toString (n div 10) @ [0x30 + of_nat (n mod 10)])"

definition handleApiError :: "js_error \<Rightarrow> nat \<Rightarrow> jstring" where
  "handleApiError error retries =
     (case error of
        APIError status retryAfter message \<Rightarrow>
          if status = Some 429 then
            jstr ''Rate limit exceeded. Please try again''
            @ (case retryAfter of
                 None \<Rightarrow> jstr '' later''
               | Some s \<Rightarrow> if s \<noteq> [] then jstr '' after '' @ s @ jstr '' seconds''
                           else jstr '' later'')
            @ jstr ''.''
          else if status = Some 401 then
            jstr ''Invalid OpenAI API key. Please check your configuration.''
          else if status = Some 402 then
            jstr ''Insufficient OpenAI API quota. Please check your account.''
          else if status = Some 404 then
            jstr ''OpenAI model not found. Please check the model name.''
          else if (case status of None \<Rightarrow> False | Some s \<Rightarrow> 500 \<le> s) then
            jstr ''OpenAI server error. Please try again''
            @ (if 0 < retries then jstr '' (retry '' @ toString retries @ jstr '')'' else [])
            @ jstr ''.''
          else if message \<noteq> [] then message
          else jstr ''OpenAI API error occurred.''
      | OtherError message \<Rightarrow> message
      | NonError v \<Rightarrow> jstr ''An unknown error occurred while processing the image.'')"

definition radix_digit :: "nat \<Rightarrow> code_unit \<Rightarrow> nat option" where
  "radix_digit radix c =
     (let v = (if is_digit c then Some (unat c - 0x30)
               else if is_lower c then Some (unat c - 0x61 + 10)
               else if is_upper c then Some (unat c - 0x41 + 10)
               else None)
      in case v of None \<Rightarrow> None | Some d \<Rightarrow> if d < radix then Some d else None)"

definition parseInt :: "jstring \<Rightarrow> int option" where
  \<comment> \<open>\<open>parseInt(s)\<close> without a radix; \<open>None\<close> is \<open>NaN\<close>. The value is exact here, where
      JavaScript rounds to a double above \<open>2 ^ 53\<close>.\<close>
  "parseInt s =
     (let s = dropWhile is_space s;
          (sign, s) = (case s of
                         [] \<Rightarrow> (1, s)
                       | c # r \<Rightarrow> if c = 0x2D then (- 1, r) else if c = 0x2B then (1, r)
                                  else (1, s));
          (radix, s) = (case s of
                          a # b # r \<Rightarrow> if a = 0x30 \<and> (b = 0x78 \<or> b = 0x58) then (16, r)
                                        else (10, s)
                        | _ \<Rightarrow> (10, s));
          ds = takeWhile (\<lambda>c. radix_digit radix c \<noteq> None) s
      in if ds = [] then None
         else Some (sign * int (foldl (\<lambda>a c. radix * a + (case radix_digit radix c of
                                                             None \<Rightarrow> 0 | Some d \<Rightarrow> d)) 0 ds)))"

record api_response =
  content :: "jstring option"   \<comment> \<open>\<open>response.choices[0]?.message?.content\<close>\<close>
  response_model :: jstring
  usage :: "(int \<times> int) option" \<comment> \<open>\<open>prompt_tokens\<close> and \<open>completion_tokens\<close>\<close>

record ExtractionResult =
  result_text :: jstring
  result_language :: jstring
  result_confidence :: rat
  model :: jstring
  promptTokens :: int
  completionTokens :: int

record effects =
  calls :: nat                 \<comment> \<open>requests sent to the model\<close>
  delays :: "int option list"  \<comment> \<open>the arguments of \<open>setTimeout\<close>, in milliseconds;
                                   \<open>None\<close> is \<open>NaN\<close>\<close>

definition maxRetries :: nat where
  "maxRetries = 3"

definition on_success :: "api_response \<Rightarrow> ExtractionResult" where
  \<comment> \<open>the rest of the \<open>try\<close> block once the request has returned\<close>
  "on_success response =
     (let fullText = (case content response of None \<Rightarrow> [] | Some s \<Rightarrow> s);
          p = parseExtractionResponse fullText
      in \<lparr>result_text = extractedText p, result_language = language p,
          result_confidence = confidence p, model = response_model response,
          promptTokens = (case usage response of None \<Rightarrow> 0 | Some (p, c) \<Rightarrow> p),
          completionTokens = (case usage response of None \<Rightarrow> 0 | Some (p, c) \<Rightarrow> c)\<rparr>)"

datatype caught = Throw jstring | Wait "int option"

definition on_error :: "js_error \<Rightarrow> nat \<Rightarrow> caught" where
  \<comment> \<open>the \<open>catch\<close> block of one attempt: it throws, or it waits and the loop goes on\<close>
  "on_error error attempt =
     (let backoff = Wait (Some (2 ^ attempt * 1000));
          last = (if attempt = maxRetries - 1 then Throw (handleApiError error attempt)
                  else backoff)
      in case error of
           APIError status retryAfter message \<Rightarrow>
             if status = Some 401 \<or> status = Some 402 \<or> status = Some 404 then
               Throw (handleApiError error 0)
             else if status = Some 429 \<and> attempt < maxRetries - 1 then
               (case retryAfter of
                  None \<Rightarrow> backoff
                | Some s \<Rightarrow> if s \<noteq> [] then Wait (map_option (\<lambda>n. n * 1000) (parseInt s))
                            else backoff)
             else last
         | _ \<Rightarrow> last)"

function attempts ::
  "(nat \<Rightarrow> js_error + api_response) \<Rightarrow> nat \<Rightarrow> js_error option \<Rightarrow> effects
     \<Rightarrow> (jstring + ExtractionResult) \<times> effects" where
  "attempts create attempt lastError eff =
     (if attempt < maxRetries then
        (let eff = eff\<lparr>calls := calls eff + 1\<rparr> in
         case create attempt of
           Inr response \<Rightarrow> (Inr (on_success response), eff)
         | Inl error \<Rightarrow>
             (let lastError = Some (case error of NonError v \<Rightarrow> OtherError v | _ \<Rightarrow> error)
              in case on_error error attempt of
                   Throw m \<Rightarrow> (Inl m, eff)
                 | Wait ms \<Rightarrow>
                     attempts create (attempt + 1) lastError (eff\<lparr>delays := delays eff @ [ms]\<rparr>)))
      else
        (Inl (case lastError of
                Some e \<Rightarrow> handleApiError e maxRetries
              | None \<Rightarrow> jstr ''Failed to extract text from image after multiple attempts''),
         eff))"
  by pat_completeness auto
termination
  by (relation "measure (\<lambda>(create, attempt, lastError, eff). maxRetries - attempt)") auto

declare attempts.simps [simp del]


section \<open>Rate limiter\<close>

record RateLimitEntry =
  count :: int
  resetTime :: int

type_synonym rate_store = "jstring \<rightharpoonup> RateLimitEntry"

record RateLimitResult =
  allowed :: bool
  remaining :: int
  result_resetTime :: int

definition RATE_LIMIT_WINDOW_MS :: int where
  "RATE_LIMIT_WINDOW_MS = 60 * 1000"

definition RATE_LIMIT_MAX_REQUESTS :: int where
  "RATE_LIMIT_MAX_REQUESTS = 10"

definition checkRateLimit :: "int \<Rightarrow> jstring \<Rightarrow> rate_store \<Rightarrow> RateLimitResult \<times> rate_store" where
  \<comment> \<open>\<open>now\<close> is the value of \<open>Date.now()\<close>\<close>
  "checkRateLimit now ip rateLimitStore =
     (case (case rateLimitStore ip of
              None \<Rightarrow> None
            | Some entry \<Rightarrow> if resetTime entry < now then None else Some entry) of
        None \<Rightarrow>
          (let resetTime = now + RATE_LIMIT_WINDOW_MS
           in (\<lparr>allowed = True, remaining = RATE_LIMIT_MAX_REQUESTS - 1,
                result_resetTime = resetTime\<rparr>,
               rateLimitStore(ip \<mapsto> \<lparr>count = 1, resetTime = resetTime\<rparr>)))
      | Some entry \<Rightarrow>
          if RATE_LIMIT_MAX_REQUESTS \<le> count entry then
            (\<lparr>allowed = False, remaining = 0, result_resetTime = resetTime entry\<rparr>,
             rateLimitStore)
          else
            (let entry = entry\<lparr>count := count entry + 1\<rparr>
             in (\<lparr>allowed = True, remaining = RATE_LIMIT_MAX_REQUESTS - count entry,
                  result_resetTime = resetTime entry\<rparr>,
                 rateLimitStore(ip \<mapsto> entry))))"

definition cleanup :: "int \<Rightarrow> rate_store \<Rightarrow> rate_store" where
  \<comment> \<open>the body of the \<open>setInterval\<close> callback\<close>
  "cleanup now rateLimitStore =
     (\<lambda>ip. case rateLimitStore ip of
              None \<Rightarrow> None
            | Some entry \<Rightarrow> if resetTime entry < now then None else Some entry)"

fun checks :: "jstring \<Rightarrow> int list \<Rightarrow> rate_store \<Rightarrow> RateLimitResult list \<times> rate_store" where
  \<comment> \<open>consecutive calls for one identity, at the given clock values\<close>
  "checks ip [] st = ([], st)"
| "checks ip (now # nows) st =
     (let (r, st) = checkRateLimit now ip st;
          (rs, st) = checks ip nows st
      in (r # rs, st))"


section \<open>Image normalisation\<close>

text \<open>
  The image library is outside the repository. Each of its operations is a parameter
  that returns a value or throws, on an image type that is left open, and every call the
  function makes is appended to a trace.
\<close>

type_synonym buffer = "8 word list"

datatype exn = Exn jstring

record metadata =
  meta_width :: "int option"
  meta_height :: "int option"

record 'img sharp =
  sharp_new :: "buffer \<Rightarrow> exn + 'img"           \<comment> \<open>\<open>sharp(buffer)\<close>\<close>
  sharp_metadata :: "'img \<Rightarrow> exn + metadata"   \<comment> \<open>\<open>image.metadata()\<close>\<close>
  sharp_resize :: "'img \<Rightarrow> int \<Rightarrow> int \<Rightarrow> exn + 'img"
    \<comment> \<open>\<open>image.resize(w, h, {fit: "inside", withoutEnlargement: true})\<close>\<close>
  sharp_jpeg :: "'img \<Rightarrow> int \<Rightarrow> exn + 'img"     \<comment> \<open>\<open>image.jpeg({quality})\<close>\<close>
  sharp_webp :: "'img \<Rightarrow> int \<Rightarrow> exn + 'img"     \<comment> \<open>\<open>image.webp({quality})\<close>\<close>
  sharp_toBuffer :: "'img \<Rightarrow> exn + buffer"     \<comment> \<open>\<open>image.toBuffer()\<close>\<close>

datatype 'img call =
    Sharp buffer
  | Metadata 'img
  | Resize 'img int int
  | Jpeg 'img int
  | Webp 'img int
  | ToBuffer 'img

type_synonym ('img, 'a) io = "'img call list \<Rightarrow> (exn + 'a) \<times> 'img call list"

definition return :: "'a \<Rightarrow> ('img, 'a) io" where
  "return a trace = (Inr a, trace)"

definition bind :: "('img, 'a) io \<Rightarrow> ('a \<Rightarrow> ('img, 'b) io) \<Rightarrow> ('img, 'b) io" where
  \<comment> \<open>sequencing inside a \<open>try\<close> block: a throw skips the rest\<close>
  "bind m f trace = (case m trace of (Inl e, trace') \<Rightarrow> (Inl e, trace') | (Inr a, trace') \<Rightarrow> f a trace')"

definition invoke :: "'img call \<Rightarrow> exn + 'a \<Rightarrow> ('img, 'a) io" where
  "invoke c outcome trace = (outcome, trace @ [c])"

definition op_sharp :: "'img sharp \<Rightarrow> buffer \<Rightarrow> ('img, 'img) io" where
  "op_sharp sh b = invoke (Sharp b) (sharp_new sh b)"

definition op_metadata :: "'img sharp \<Rightarrow> 'img \<Rightarrow> ('img, metadata) io" where
  "op_metadata sh img = invoke (Metadata img) (sharp_metadata sh img)"

definition op_resize :: "'img sharp \<Rightarrow> 'img \<Rightarrow> int \<Rightarrow> int \<Rightarrow> ('img, 'img) io" where
  "op_resize sh img w h = invoke (Resize img w h) (sharp_resize sh img w h)"

definition op_jpeg :: "'img sharp \<Rightarrow> 'img \<Rightarrow> int \<Rightarrow> ('img, 'img) io" where
  "op_jpeg sh img q = invoke (Jpeg img q) (sharp_jpeg sh img q)"

definition op_webp :: "'img sharp \<Rightarrow> 'img \<Rightarrow> int \<Rightarrow> ('img, 'img) io" where
  "op_webp sh img q = invoke (Webp img q) (sharp_webp sh img q)"

definition op_toBuffer :: "'img sharp \<Rightarrow> 'img \<Rightarrow> ('img, buffer) io" where
  "op_toBuffer sh img = invoke (ToBuffer img) (sharp_toBuffer sh img)"

fun threw :: "'img sharp \<Rightarrow> 'img call \<Rightarrow> bool" where
  \<comment> \<open>the logged call ended in a throw\<close>
  "threw sh (Sharp b) = isl (sharp_new sh b)"
| "threw sh (Metadata i) = isl (sharp_metadata sh i)"
| "threw sh (Resize i w h) = isl (sharp_resize sh i w h)"
| "threw sh (Jpeg i q) = isl (sharp_jpeg sh i q)"
| "threw sh (Webp i q) = isl (sharp_webp sh i q)"
| "threw sh (ToBuffer i) = isl (sharp_toBuffer sh i)"

fun is_toBuffer :: "'img call \<Rightarrow> bool" where
  "is_toBuffer (ToBuffer i) = True"
| "is_toBuffer _ = False"

record ImageProcessingOptions =
  options_maxSize :: "int option"
  options_maxDimension :: "int option"
  options_quality :: "int option"

record compressed =
  result_buffer :: buffer
  result_mimeType :: jstring
  result_width :: "int option"
  result_height :: "int option"

definition MAX_IMAGE_SIZE :: int where
  "MAX_IMAGE_SIZE = 20 * 1024 * 1024"

definition MAX_IMAGE_DIMENSION :: int where
  "MAX_IMAGE_DIMENSION = 2048"

definition or_default :: "int option \<Rightarrow> int \<Rightarrow> int" where
  \<comment> \<open>\<open>v || d\<close> on an optional number: \<open>undefined\<close> and 0 give the default\<close>
  "or_default v d = (case v of None \<Rightarrow> d | Some n \<Rightarrow> if n = 0 then d else n)"

definition probe ::
  "'img sharp \<Rightarrow> buffer \<Rightarrow> jstring \<Rightarrow> int \<Rightarrow> ('img, compressed option) io" where
  \<comment> \<open>the body of the first \<open>try\<close> block: \<open>Some\<close> is its \<open>return\<close>, \<open>None\<close> falls through\<close>
  "probe sh buffer mimeType maxDimension =
     bind (op_sharp sh buffer) (\<lambda>img.
     bind (op_metadata sh img) (\<lambda>metadata.
     return (case (meta_width metadata, meta_height metadata) of
               (Some w, Some h) \<Rightarrow>
                 if w \<noteq> 0 \<and> h \<noteq> 0 \<and> w \<le> maxDimension \<and> h \<le> maxDimension
                 then Some \<lparr>result_buffer = buffer, result_mimeType = mimeType,
                            result_width = Some w, result_height = Some h\<rparr>
                 else None
             | _ \<Rightarrow> None)))"

definition encode ::
  "'img sharp \<Rightarrow> 'img \<Rightarrow> jstring \<Rightarrow> buffer \<Rightarrow> int \<Rightarrow> ('img, 'img \<times> jstring) io" where
  \<comment> \<open>the choice of the output format: the image and \<open>outputMimeType\<close>\<close>
  "encode sh img mimeType buffer quality =
     (if mimeType = jstr ''image/png'' \<and> int (length buffer) > 500 * 1024 then
        bind (op_jpeg sh img quality) (\<lambda>img. return (img, jstr ''image/jpeg''))
      else if includes_str mimeType (jstr ''heic'') \<or> includes_str mimeType (jstr ''heif'') then
        bind (op_jpeg sh img quality) (\<lambda>img. return (img, jstr ''image/jpeg''))
      else if mimeType = jstr ''image/webp'' then
        bind (op_webp sh img quality) (\<lambda>img. return (img, mimeType))
      else if mimeType = jstr ''image/jpeg'' \<or> mimeType = jstr ''image/jpg'' then
        bind (op_jpeg sh img quality) (\<lambda>img. return (img, mimeType))
      else return (img, mimeType))"

definition reduce ::
  "'img sharp \<Rightarrow> buffer \<Rightarrow> jstring \<Rightarrow> int \<Rightarrow> int \<Rightarrow> ('img, buffer) io" where
  \<comment> \<open>the body of "If still too large, reduce quality further"\<close>
  "reduce sh buffer outputMimeType maxDimension quality =
     (let reducedQuality = max 50 (quality - 20) in
      bind (op_sharp sh buffer) (\<lambda>img.
      bind (op_resize sh img maxDimension maxDimension) (\<lambda>img.
      bind (if outputMimeType = jstr ''image/jpeg'' \<or> outputMimeType = jstr ''image/jpg''
            then op_jpeg sh img reducedQuality
            else op_webp sh img reducedQuality) (\<lambda>img.
      op_toBuffer sh img))))"

definition recompress ::
  "'img sharp \<Rightarrow> buffer \<Rightarrow> jstring \<Rightarrow> int \<Rightarrow> int \<Rightarrow> int \<Rightarrow> ('img, compressed) io" where
  \<comment> \<open>the body of the second \<open>try\<close> block\<close>
  "recompress sh buffer mimeType maxSize maxDimension quality =
     bind (op_sharp sh buffer) (\<lambda>img.
     bind (op_metadata sh img) (\<lambda>metadata.
     let originalWidth = or_default (meta_width metadata) 0;
         originalHeight = or_default (meta_height metadata) 0 in
     bind (if originalWidth > maxDimension \<or> originalHeight > maxDimension
           then op_resize sh img maxDimension maxDimension
           else return img) (\<lambda>img.
     bind (encode sh img mimeType buffer quality) (\<lambda>(img, outputMimeType).
     bind (op_toBuffer sh img) (\<lambda>compressedBuffer.
     bind (if int (length compressedBuffer) > maxSize \<and> quality > 50
           then reduce sh buffer outputMimeType maxDimension quality
           else return compressedBuffer) (\<lambda>compressedBuffer.
     bind (op_sharp sh compressedBuffer) (\<lambda>final.
     bind (op_metadata sh final) (\<lambda>finalMetadata.
     return \<lparr>result_buffer = compressedBuffer, result_mimeType = outputMimeType,
             result_width = meta_width finalMetadata,
             result_height = meta_height finalMetadata\<rparr>))))))))"

definition compressImageIfNeeded ::
  "'img sharp \<Rightarrow> buffer \<Rightarrow> jstring \<Rightarrow> ImageProcessingOptions \<Rightarrow> 'img call list
     \<Rightarrow> compressed \<times> 'img call list" where
  "compressImageIfNeeded sh buffer mimeType options trace =
     (let maxSize = or_default (options_maxSize options) MAX_IMAGE_SIZE;
          maxDimension = or_default (options_maxDimension options) MAX_IMAGE_DIMENSION;
          quality = or_default (options_quality options) 85;
          original = \<lparr>result_buffer = buffer, result_mimeType = mimeType, 
                      result_width = None, result_height = None\<rparr>;
          second = (\<lambda>trace. case recompress sh buffer mimeType maxSize maxDimension quality trace of
                            (Inl error, trace') \<Rightarrow> (original, trace')
                          | (Inr r, trace') \<Rightarrow> (r, trace'))
      in if int (length buffer) \<le> maxSize then
           (case probe sh buffer mimeType maxDimension trace of
              (Inl error, trace') \<Rightarrow> (original, trace')
            | (Inr (Some r), trace') \<Rightarrow> (r, trace')
            | (Inr None, trace') \<Rightarrow> second trace')
         else second trace)"


definition faithful :: "'img sharp \<Rightarrow> ('img, 'a) io \<Rightarrow> bool" where
  \<comment> \<open>the computation only appends to the trace, and it ends in a throw exactly when one
      of the calls it appended threw\<close>
  "faithful sh m \<longleftrightarrow>
     (\<forall>tr. \<exists>cs. snd (m tr) = tr @ cs \<and> (isl (fst (m tr)) \<longleftrightarrow> (\<exists>c\<in>set cs. threw sh c)))"


section \<open>Result store\<close>

text \<open>
  The database driver is outside the repository: the constructor of identifiers is a
  parameter that returns an identifier or throws, and a collection is the list of its
  documents together with whether the server can be reached.
\<close>

record ('oid, 'doc) collection =
  documents :: "('oid \<times> 'doc) list"
  reachable :: bool

fun remove_first :: "'oid \<Rightarrow> ('oid \<times> 'doc) list \<Rightarrow> nat \<times> ('oid \<times> 'doc) list" where
  "remove_first oid [] = (0, [])"
| "remove_first oid (d # ds) =
     (if fst d = oid then (1, ds)
      else (let (n, ds') = remove_first oid ds in (n, d # ds')))"

definition deleteOne ::
  "'oid \<Rightarrow> ('oid, 'doc) collection \<Rightarrow> exn + nat \<times> ('oid, 'doc) collection" where
  \<comment> \<open>\<open>collection.deleteOne({ _id: objectId })\<close>: \<open>deletedCount\<close> and the collection after\<close>
  "deleteOne oid c =
     (if reachable c
      then (let (n, ds) = remove_first oid (documents c) in Inr (n, c\<lparr>documents := ds\<rparr>))
      else Inl (Exn (jstr ''connection closed'')))"

definition deleteScreenshot ::
  "(jstring \<Rightarrow> exn + 'oid) \<Rightarrow> exn + ('oid, 'doc) collection \<Rightarrow> jstring
     \<Rightarrow> exn + bool \<times> ('oid, 'doc) collection" where
  \<comment> \<open>\<open>ObjectId\<close> is \<open>new ObjectId(id)\<close> on the string \<open>ident\<close>, \<open>getCollection\<close> the outcome of
      \<open>await getCollection()\<close>, which is outside the \<open>try\<close> block\<close>
  "deleteScreenshot ObjectId getCollection ident =
     (case getCollection of
        Inl error \<Rightarrow> Inl error
      | Inr collection \<Rightarrow>
          (case ObjectId ident of
             Inl error \<Rightarrow> Inr (False, collection)
           | Inr objectId \<Rightarrow>
               (case deleteOne objectId collection of
                  Inl error \<Rightarrow> Inr (False, collection)
                | Inr (deletedCount, collection') \<Rightarrow> Inr (deletedCount > 0, collection'))))"


section \<open>Facts about strings\<close>

lemma some_iff: "some p xs \<longleftrightarrow> (\<exists>x\<in>set xs. p x)"
  by (simp add: some_def list_ex_iff)

lemma startsWith_iff: "startsWith t p \<longleftrightarrow> (\<exists>r. t = p @ r)"
  by (induction t p rule: startsWith.induct) auto

lemma includes_str_iff: "includes_str t p \<longleftrightarrow> (\<exists>a b. t = a @ p @ b)"
proof (induction t)
  case Nil
  show ?case by (simp add: startsWith_iff)
next
  case (Cons c cs)
  show ?case
  proof
    assume "includes_str (c # cs) p"
    then consider "startsWith (c # cs) p" | "includes_str cs p" by auto
    then show "\<exists>a b. c # cs = a @ p @ b"
    proof cases
      case 1
      then obtain r where "c # cs = p @ r" by (auto simp: startsWith_iff)
      then have "c # cs = [] @ p @ r" by simp
      then show ?thesis by blast
    next
      case 2
      then obtain a b where "cs = a @ p @ b" using Cons.IH by blast
      then have "c # cs = (c # a) @ p @ b" by simp
      then show ?thesis by blast
    qed
  next
    assume "\<exists>a b. c # cs = a @ p @ b"
    then obtain a b where ab: "c # cs = a @ p @ b" by blast
    show "includes_str (c # cs) p"
    proof (cases a)
      case Nil
      with ab have "startsWith (c # cs) p" by (auto simp: startsWith_iff)
      then show ?thesis by simp
    next
      case (Cons a0 a')
      with ab have "cs = a' @ p @ b" by simp
      then have "includes_str cs p" using Cons.IH by blast
      then show ?thesis by simp
    qed
  qed
qed


section \<open>Format validation accepts by substring\<close>

lemma subtypes_eq:
  "map subtype SUPPORTED_MIME_TYPES =
     [jstr ''png'', jstr ''jpeg'', jstr ''jpg'', jstr ''webp'', jstr ''heic'', jstr ''heif'']"
  by (simp add: SUPPORTED_MIME_TYPES_def subtype_def jstr_def)

lemma validate_subtypes:
  "validateImageFormat mimeType \<longleftrightarrow>
     (\<exists>s\<in>set (map subtype SUPPORTED_MIME_TYPES). includes_str (toLowerCase mimeType) s)"
  by (simp add: validateImageFormat_def some_iff)

text \<open>
  C10. \<open>validateImageFormat\<close> is true exactly when the lower-cased MIME type contains one
  of "png", "jpeg", "jpg", "webp", "heic", "heif" somewhere. So it accepts
  "application/fake-png" and "text/webpage", neither of which is in the list of supported
  types.
\<close>

theorem validateImageFormat_substring:
  "(validateImageFormat mimeType \<longleftrightarrow>
      (\<exists>s\<in>{jstr ''png'', jstr ''jpeg'', jstr ''jpg'', jstr ''webp'', jstr ''heic'', jstr ''heif''}.
         \<exists>a b. toLowerCase mimeType = a @ s @ b))
   \<and> validateImageFormat (jstr ''application/fake-png'')
   \<and> validateImageFormat (jstr ''text/webpage'')
   \<and> jstr ''application/fake-png'' \<notin> set SUPPORTED_MIME_TYPES
   \<and> jstr ''text/webpage'' \<notin> set SUPPORTED_MIME_TYPES"
proof (intro conjI)
  show "validateImageFormat mimeType \<longleftrightarrow>
      (\<exists>s\<in>{jstr ''png'', jstr ''jpeg'', jstr ''jpg'', jstr ''webp'', jstr ''heic'', jstr ''heif''}.
         \<exists>a b. toLowerCase mimeType = a @ s @ b)"
    unfolding validate_subtypes subtypes_eq includes_str_iff by simp
  show "validateImageFormat (jstr ''application/fake-png'')"
    by (simp add: validateImageFormat_def some_def SUPPORTED_MIME_TYPES_def subtype_def
        jstr_def toLowerCase_def lower_unit_def is_upper_def)
  show "validateImageFormat (jstr ''text/webpage'')"
    by (simp add: validateImageFormat_def some_def SUPPORTED_MIME_TYPES_def subtype_def
        jstr_def toLowerCase_def lower_unit_def is_upper_def)
  show "jstr ''application/fake-png'' \<notin> set SUPPORTED_MIME_TYPES"
    by (simp add: SUPPORTED_MIME_TYPES_def jstr_def)
  show "jstr ''text/webpage'' \<notin> set SUPPORTED_MIME_TYPES"
    by (simp add: SUPPORTED_MIME_TYPES_def jstr_def)
qed

theorem validateImageFormat_substring_witness:
  "(\<exists>s\<in>{jstr ''png'', jstr ''jpeg'', jstr ''jpg'', jstr ''webp'', jstr ''heic'', jstr ''heif''}.
      \<exists>a b. toLowerCase (jstr ''IMAGE/X-PNG'') = a @ s @ b)
   \<and> validateImageFormat (jstr ''IMAGE/X-PNG'')"
proof -
  have "toLowerCase (jstr ''IMAGE/X-PNG'') = jstr ''image/x-'' @ jstr ''png'' @ []"
    by (simp add: toLowerCase_def jstr_def lower_unit_def is_upper_def)
  then have ex: "\<exists>s\<in>{jstr ''png'', jstr ''jpeg'', jstr ''jpg'', jstr ''webp'', jstr ''heic'',
                        jstr ''heif''}.
                   \<exists>a b. toLowerCase (jstr ''IMAGE/X-PNG'') = a @ s @ b"
    by blast
  with validateImageFormat_substring [of "jstr ''IMAGE/X-PNG''"] show ?thesis
    by blast
qed


section \<open>Precedence of the language detector\<close>





section \<open>The confidence estimate\<close>



lemma estimateConfidence_range:
  "0 \<le> estimateConfidence text \<and> estimateConfidence text \<le> 100"
  unfolding estimateConfidence_def Let_def
  by (cases "text = []") (simp_all split del: if_split)




section \<open>Deleting from the result store\<close>

lemma remove_first_absent:
  "oid \<notin> fst ` set ds \<Longrightarrow> remove_first oid ds = (0, ds)"
  by (induction ds) auto

text \<open>
  C9. Once \<open>getCollection\<close> has returned the collection, \<open>deleteScreenshot\<close> returns
  false and throws nothing, and the collection stays as it was, both when the identifier
  string is rejected by the \<open>ObjectId\<close> constructor and when it is accepted but no stored
  document has that identifier. When \<open>getCollection\<close> throws, \<open>deleteScreenshot\<close> throws
  the same error, whatever the identifier.
\<close>

theorem deleteScreenshot_not_found:
  "(\<forall>e. ObjectId ident = Inl e \<longrightarrow>
        deleteScreenshot ObjectId (Inr c) ident = Inr (False, c))
   \<and> (\<forall>oid. ObjectId ident = Inr oid \<and> oid \<notin> fst ` set (documents c) \<longrightarrow>
        deleteScreenshot ObjectId (Inr c) ident = Inr (False, c))
   \<and> deleteScreenshot ObjectId (Inl error) ident = Inl error"
  by (auto simp: deleteScreenshot_def deleteOne_def remove_first_absent)

theorem deleteScreenshot_not_found_witness:
  "deleteScreenshot (\<lambda>s. if length s = 2 then Inr s else Inl (Exn []))
     (Inr \<lparr>documents = [(jstr ''a1'', True)], reachable = True\<rparr>) (jstr ''xyz'')
     = Inr (False, \<lparr>documents = [(jstr ''a1'', True)], reachable = True\<rparr>)
   \<and> deleteScreenshot (\<lambda>s. if length s = 2 then Inr s else Inl (Exn []))
     (Inr \<lparr>documents = [(jstr ''a1'', True)], reachable = True\<rparr>) (jstr ''b2'')
     = Inr (False, \<lparr>documents = [(jstr ''a1'', True)], reachable = True\<rparr>)"
  using deleteScreenshot_not_found
          [of "\<lambda>s. if length s = 2 then Inr s else Inl (Exn [])" "jstr ''xyz''"
              "\<lparr>documents = [(jstr ''a1'', True)], reachable = True\<rparr>" "Exn []"]
        deleteScreenshot_not_found
          [of "\<lambda>s. if length s = 2 then Inr s else Inl (Exn [])" "jstr ''b2''"
              "\<lparr>documents = [(jstr ''a1'', True)], reachable = True\<rparr>" "Exn []"]
  apply (simp only: jstr_def)
  apply simp
  apply blast
  done

text \<open>
  C9 does not hold whatever the state of the store: \<open>getCollection\<close> is awaited before the
  \<open>try\<close> block, so when it throws, a malformed identifier gives a throw, not false.
\<close>

theorem deleteScreenshot_throws_unreachable:
  "deleteScreenshot (\<lambda>s. if length s = 2 then Inr s else Inl (Exn []))
     (Inl (Exn (jstr ''Failed to connect to MongoDB after retries'')) ::
        exn + (jstring, bool) collection) (jstr ''xyz'')
     = Inl (Exn (jstr ''Failed to connect to MongoDB after retries''))
   \<and> (\<lambda>s. if length s = 2 then Inr s else Inl (Exn [])) (jstr ''xyz'') = Inl (Exn [])"
  by (simp add: deleteScreenshot_def jstr_def)


section \<open>The fixed window of the rate limiter\<close>

lemma check_fresh:
  "st ip = None \<or> (\<exists>e. st ip = Some e \<and> resetTime e < now) \<Longrightarrow>
   checkRateLimit now ip st =
     (\<lparr>allowed = True, remaining = 9, result_resetTime = now + 60000\<rparr>,
      st(ip \<mapsto> \<lparr>count = 1, resetTime = now + 60000\<rparr>))"
  by (auto simp: checkRateLimit_def RATE_LIMIT_WINDOW_MS_def RATE_LIMIT_MAX_REQUESTS_def Let_def)

lemma check_active:
  "st ip = Some \<lparr>count = k, resetTime = r\<rparr> \<Longrightarrow> now \<le> r \<Longrightarrow> k < 10 \<Longrightarrow>
   checkRateLimit now ip st =
     (\<lparr>allowed = True, remaining = 10 - (k + 1), result_resetTime = r\<rparr>,
      st(ip \<mapsto> \<lparr>count = k + 1, resetTime = r\<rparr>))"
  by (auto simp: checkRateLimit_def RATE_LIMIT_MAX_REQUESTS_def)

lemma check_full:
  "st ip = Some \<lparr>count = k, resetTime = r\<rparr> \<Longrightarrow> now \<le> r \<Longrightarrow> 10 \<le> k \<Longrightarrow>
   checkRateLimit now ip st = (\<lparr>allowed = False, remaining = 0, result_resetTime = r\<rparr>, st)"
  by (auto simp: checkRateLimit_def RATE_LIMIT_MAX_REQUESTS_def)

lemma checks_active:
  "st ip = Some \<lparr>count = k, resetTime = r\<rparr> \<Longrightarrow> \<forall>t\<in>set ts. t \<le> r \<Longrightarrow> k + int (length ts) \<le> 10 \<Longrightarrow>
   checks ip ts st =
     (map (\<lambda>j. \<lparr>allowed = True, remaining = 10 - (k + 1 + int j), result_resetTime = r\<rparr>) [0..<length ts],
      st(ip \<mapsto> \<lparr>count = k + int (length ts), resetTime = r\<rparr>))"
proof (induction ts arbitrary: st k)
  case Nil
  then show ?case by (auto simp: fun_upd_idem)
next
  case (Cons t ts)
  have a: "checkRateLimit t ip st =
     (\<lparr>allowed = True, remaining = 10 - (k + 1), result_resetTime = r\<rparr>,
      st(ip \<mapsto> \<lparr>count = k + 1, resetTime = r\<rparr>))"
    using Cons.prems by (intro check_active) auto
  have b: "checks ip ts (st(ip \<mapsto> \<lparr>count = k + 1, resetTime = r\<rparr>)) =
     (map (\<lambda>j. \<lparr>allowed = True, remaining = 10 - (k + 1 + 1 + int j), result_resetTime = r\<rparr>) [0..<length ts],
      (st(ip \<mapsto> \<lparr>count = k + 1, resetTime = r\<rparr>))(ip \<mapsto> \<lparr>count = k + 1 + int (length ts), resetTime = r\<rparr>))"
    using Cons.prems by (intro Cons.IH) auto
  have c: "[0..<length (t # ts)] = 0 # map Suc [0..<length ts]"
    by (simp add: upt_conv_Cons map_Suc_upt del: upt_Suc)
  have "checks ip (t # ts) st =
     (\<lparr>allowed = True, remaining = 10 - (k + 1), result_resetTime = r\<rparr> #
      map (\<lambda>j. \<lparr>allowed = True, remaining = 10 - (k + 1 + 1 + int j), result_resetTime = r\<rparr>) [0..<length ts],
      (st(ip \<mapsto> \<lparr>count = k + 1, resetTime = r\<rparr>))(ip \<mapsto> \<lparr>count = k + 1 + int (length ts), resetTime = r\<rparr>))"
    by (simp only: checks.simps a b Let_def prod.case)
  then show ?case
    unfolding c by (simp add: o_def add.assoc) (simp add: fun_upd_def)
qed

lemma checks_append:
  "checks ip (xs @ ys) st =
     (let (rs1, st1) = checks ip xs st; (rs2, st2) = checks ip ys st1 in (rs1 @ rs2, st2))"
  by (induction xs arbitrary: st) (auto simp: Let_def split: prod.splits)


lemma check_at_reset:
  "st ip = Some \<lparr>count = 10, resetTime = r\<rparr> \<Longrightarrow>
   checkRateLimit r ip st = (\<lparr>allowed = False, remaining = 0, result_resetTime = r\<rparr>, st)"
  using check_full [of st ip 10 r r] by simp

lemma check_after_cleanup:
  "t \<le> now \<Longrightarrow> fst (checkRateLimit now ip (cleanup t st)) = fst (checkRateLimit now ip st)"
  by (auto simp: checkRateLimit_def cleanup_def Let_def split: option.splits)

text \<open>
  C4. An identity with no entry calls at \<open>t0\<close>, which opens the window that resets at
  \<open>t0 + 60000\<close>, then nine more times no later than the reset time: the ten calls are
  allowed, with 9, 8, ..., 0 remaining. An eleventh call no later than the reset time is
  rejected with 0 remaining and the reset time of the window, which is not before the call,
  and is after it when the call is before the reset time. A call after the reset time is
  allowed with 9 remaining.
\<close>

theorem rate_limit_window:
  assumes fresh: "st ip = None"
    and nine: "length ts = 9"
    and inside: "\<forall>t\<in>set ts. t \<le> t0 + 60000"
    and eleventh: "t11 \<le> t0 + 60000"
    and later: "t0 + 60000 < t12"
  shows "map allowed (fst (checks ip (t0 # ts @ [t11, t12]) st))
           = [True, True, True, True, True, True, True, True, True, True, False, True]
       \<and> map remaining (fst (checks ip (t0 # ts @ [t11, t12]) st))
           = [9, 8, 7, 6, 5, 4, 3, 2, 1, 0, 0, 9]
       \<and> result_resetTime (fst (checks ip (t0 # ts @ [t11, t12]) st) ! 10) = t0 + 60000
       \<and> t11 \<le> result_resetTime (fst (checks ip (t0 # ts @ [t11, t12]) st) ! 10)
       \<and> (t11 < t0 + 60000 \<longrightarrow>
            t11 < result_resetTime (fst (checks ip (t0 # ts @ [t11, t12]) st) ! 10))"
proof -
  let ?r = "t0 + 60000"
  let ?st1 = "st(ip \<mapsto> \<lparr>count = 1, resetTime = ?r\<rparr>)"
  let ?st10 = "?st1(ip \<mapsto> \<lparr>count = 1 + int (length ts), resetTime = ?r\<rparr>)"
  have first: "checkRateLimit t0 ip st =
      (\<lparr>allowed = True, remaining = 9, result_resetTime = ?r\<rparr>, ?st1)"
    using fresh by (intro check_fresh) simp
  have middle: "checks ip ts ?st1 =
      (map (\<lambda>j. \<lparr>allowed = True, remaining = 10 - (1 + 1 + int j), result_resetTime = ?r\<rparr>)
         [0..<length ts], ?st10)"
    using inside nine by (intro checks_active) auto
  have full: "checkRateLimit t11 ip ?st10 =
      (\<lparr>allowed = False, remaining = 0, result_resetTime = ?r\<rparr>, ?st10)"
    using eleventh nine by (intro check_full) auto
  have afresh: "checkRateLimit t12 ip ?st10 =
      (\<lparr>allowed = True, remaining = 9, result_resetTime = t12 + 60000\<rparr>,
       ?st10(ip \<mapsto> \<lparr>count = 1, resetTime = t12 + 60000\<rparr>))"
    using later by (intro check_fresh) simp
  have all: "fst (checks ip (t0 # ts @ [t11, t12]) st) =
      \<lparr>allowed = True, remaining = 9, result_resetTime = ?r\<rparr> #
      map (\<lambda>j. \<lparr>allowed = True, remaining = 10 - (1 + 1 + int j), result_resetTime = ?r\<rparr>)
         [0..<length ts] @
      [\<lparr>allowed = False, remaining = 0, result_resetTime = ?r\<rparr>,
       \<lparr>allowed = True, remaining = 9, result_resetTime = t12 + 60000\<rparr>]"
    by (simp only: checks.simps checks_append first middle full afresh Let_def prod.case fst_conv)
  have upt9: "[0..<9] = [0, 1, 2, 3, 4, 5, 6, 7, 8 :: nat]"
    by code_simp
  show ?thesis
    unfolding all nine upt9 using eleventh by simp
qed


theorem rate_limit_window_witness:
  "map remaining (fst (checks (jstr ''10.0.0.1'')
       (0 # [1, 2, 3, 4, 5, 6, 7, 8, 9] @ [59999, 60001]) Map.empty))
     = [9, 8, 7, 6, 5, 4, 3, 2, 1, 0, 0, 9]
   \<and> map allowed (fst (checks (jstr ''10.0.0.1'')
       (0 # [1, 2, 3, 4, 5, 6, 7, 8, 9] @ [59999, 60001]) Map.empty))
     = [True, True, True, True, True, True, True, True, True, True, False, True]
   \<and> result_resetTime (fst (checks (jstr ''10.0.0.1'')
       (0 # [1, 2, 3, 4, 5, 6, 7, 8, 9] @ [59999, 60001]) Map.empty) ! 10) = 60000
   \<and> 59999 < result_resetTime (fst (checks (jstr ''10.0.0.1'')
       (0 # [1, 2, 3, 4, 5, 6, 7, 8, 9] @ [59999, 60001]) Map.empty) ! 10)"
  using rate_limit_window
          [of Map.empty "jstr ''10.0.0.1''" "[1, 2, 3, 4, 5, 6, 7, 8, 9]" 0 59999 60001]
  by simp

text \<open>
  C4 does not hold at the last instant of the window: the window is over only once the
  clock is past the reset time, so an eleventh call at the reset time itself is rejected
  with a reset time equal to the clock, which is not in the future.
\<close>

theorem rate_limit_reject_at_reset:
  "fst (checks (jstr ''10.0.0.1'') [0, 1, 2, 3, 4, 5, 6, 7, 8, 9, 60000] Map.empty) ! 10
     = \<lparr>allowed = False, remaining = 0, result_resetTime = 60000\<rparr>
   \<and> \<not> 60000 < result_resetTime
         (fst (checks (jstr ''10.0.0.1'') [0, 1, 2, 3, 4, 5, 6, 7, 8, 9, 60000] Map.empty) ! 10)"
  by (simp add: checkRateLimit_def RATE_LIMIT_WINDOW_MS_def RATE_LIMIT_MAX_REQUESTS_def Let_def)


section \<open>Terminal and transient failures of the model call\<close>

lemma on_error_terminal:
  "status \<in> {401, 402, 404} \<Longrightarrow>
   on_error (APIError (Some status) retryAfter message) attempt
     = Throw (handleApiError (APIError (Some status) retryAfter message) 0)"
  by (auto simp: on_error_def Let_def)

lemma on_error_transient:
  "\<forall>ra m. e \<notin> {APIError (Some 401) ra m, APIError (Some 402) ra m, APIError (Some 404) ra m}
   \<Longrightarrow> attempt < 2 \<Longrightarrow> \<exists>d. on_error e attempt = Wait d"
  by (cases e) (auto simp: on_error_def Let_def maxRetries_def split: option.splits)

lemma attempts_step:
  "attempt < 3 \<Longrightarrow>
   attempts create attempt lastError eff =
     (case create attempt of
        Inr response \<Rightarrow> (Inr (on_success response), eff\<lparr>calls := calls eff + 1\<rparr>)
      | Inl error \<Rightarrow>
          (case on_error error attempt of
             Throw m \<Rightarrow> (Inl m, eff\<lparr>calls := calls eff + 1\<rparr>)
           | Wait ms \<Rightarrow>
               attempts create (attempt + 1)
                 (Some (case error of NonError v \<Rightarrow> OtherError v | _ \<Rightarrow> error))
                 (eff\<lparr>calls := calls eff + 1, delays := delays eff @ [ms]\<rparr>)))"
  by (subst attempts.simps) (simp add: maxRetries_def Let_def split: sum.splits caught.splits)

lemma backoff_delays:
  "on_error (OtherError m) 0 = Wait (Some 1000) \<and> on_error (OtherError m) 1 = Wait (Some 2000)"
  by (simp add: on_error_def Let_def maxRetries_def)


text \<open>
  C3. When the first request fails with an API error of status 401, 402 or 404, the loop
  makes that one request, waits for nothing and throws the message of \<open>handleApiError\<close>
  for it, which is the fixed sentence of that status. When the first two requests fail
  with any other error and the third succeeds, the loop returns the parsed third response
  after three requests and exactly two waits.
\<close>

theorem retry_policy:
  "(status \<in> {401, 402, 404} \<and> create 0 = Inl (APIError (Some status) retryAfter message) \<longrightarrow>
      attempts create 0 None \<lparr>calls = 0, delays = []\<rparr>
        = (Inl (handleApiError (APIError (Some status) retryAfter message) 0),
           \<lparr>calls = 1, delays = []\<rparr>))
   \<and> handleApiError (APIError (Some 401) retryAfter message) 0
        = jstr ''Invalid OpenAI API key. Please check your configuration.''
   \<and> handleApiError (APIError (Some 402) retryAfter message) 0
        = jstr ''Insufficient OpenAI API quota. Please check your account.''
   \<and> handleApiError (APIError (Some 404) retryAfter message) 0
        = jstr ''OpenAI model not found. Please check the model name.''
   \<and> (create 0 = Inl e0 \<and> create 1 = Inl e1 \<and> create 2 = Inr response
        \<and> (\<forall>ra m. e0 \<notin> {APIError (Some 401) ra m, APIError (Some 402) ra m,
                          APIError (Some 404) ra m})
        \<and> (\<forall>ra m. e1 \<notin> {APIError (Some 401) ra m, APIError (Some 402) ra m,
                          APIError (Some 404) ra m}) \<longrightarrow>
        (\<exists>d0 d1. attempts create 0 None \<lparr>calls = 0, delays = []\<rparr>
                   = (Inr (on_success response), \<lparr>calls = 3, delays = [d0, d1]\<rparr>)))"
proof (intro conjI impI)
  assume a: "status \<in> {401, 402, 404} \<and> create 0 = Inl (APIError (Some status) retryAfter message)"
  then show "attempts create 0 None \<lparr>calls = 0, delays = []\<rparr>
        = (Inl (handleApiError (APIError (Some status) retryAfter message) 0),
           \<lparr>calls = 1, delays = []\<rparr>)"
    by (simp add: attempts_step on_error_terminal)
next
  show "handleApiError (APIError (Some 401) retryAfter message) 0
        = jstr ''Invalid OpenAI API key. Please check your configuration.''"
    by (simp add: handleApiError_def)
  show "handleApiError (APIError (Some 402) retryAfter message) 0
        = jstr ''Insufficient OpenAI API quota. Please check your account.''"
    by (simp add: handleApiError_def)
  show "handleApiError (APIError (Some 404) retryAfter message) 0
        = jstr ''OpenAI model not found. Please check the model name.''"
    by (simp add: handleApiError_def)
next
  assume a: "create 0 = Inl e0 \<and> create 1 = Inl e1 \<and> create 2 = Inr response
        \<and> (\<forall>ra m. e0 \<notin> {APIError (Some 401) ra m, APIError (Some 402) ra m,
                          APIError (Some 404) ra m})
        \<and> (\<forall>ra m. e1 \<notin> {APIError (Some 401) ra m, APIError (Some 402) ra m,
                          APIError (Some 404) ra m})"
  then obtain d0 where d0: "on_error e0 0 = Wait d0"
    using on_error_transient [of e0 0] by auto
  from a obtain d1 where d1: "on_error e1 1 = Wait d1"
    using on_error_transient [of e1 1] by auto
  have "attempts create 0 None \<lparr>calls = 0, delays = []\<rparr>
          = (Inr (on_success response), \<lparr>calls = 3, delays = [d0, d1]\<rparr>)"
    using a d0 d1 by (simp add: attempts_step numeral_2_eq_2 numeral_3_eq_3)
  then show "\<exists>d0 d1. attempts create 0 None \<lparr>calls = 0, delays = []\<rparr>
                   = (Inr (on_success response), \<lparr>calls = 3, delays = [d0, d1]\<rparr>)"
    by blast
qed


theorem retry_policy_witness:
  "attempts (\<lambda>n. Inl (APIError (Some 401) None [])) 0 None \<lparr>calls = 0, delays = []\<rparr>
     = (Inl (jstr ''Invalid OpenAI API key. Please check your configuration.''),
        \<lparr>calls = 1, delays = []\<rparr>)
   \<and> (\<exists>d0 d1.
        attempts (\<lambda>n. if n < 2 then Inl (APIError (Some 503) None [])
                       else Inr \<lparr>content = None, response_model = [], usage = None\<rparr>)
          0 None \<lparr>calls = 0, delays = []\<rparr>
        = (Inr (on_success \<lparr>content = None, response_model = [], usage = None\<rparr>),
           \<lparr>calls = 3, delays = [d0, d1]\<rparr>))"
proof
  show "attempts (\<lambda>n. Inl (APIError (Some 401) None [])) 0 None \<lparr>calls = 0, delays = []\<rparr>
     = (Inl (jstr ''Invalid OpenAI API key. Please check your configuration.''),
        \<lparr>calls = 1, delays = []\<rparr>)"
    using retry_policy [where status = 401 and create = "\<lambda>n. Inl (APIError (Some 401) None [])"
                          and retryAfter = None and message = "[]"]
    by simp
next
  show "\<exists>d0 d1.
        attempts (\<lambda>n. if n < 2 then Inl (APIError (Some 503) None [])
                       else Inr \<lparr>content = None, response_model = [], usage = None\<rparr>)
          0 None \<lparr>calls = 0, delays = []\<rparr>
        = (Inr (on_success \<lparr>content = None, response_model = [], usage = None\<rparr>),
           \<lparr>calls = 3, delays = [d0, d1]\<rparr>)"
    using retry_policy [where create = "\<lambda>n. if n < 2 then Inl (APIError (Some 503) None [])
                                          else Inr \<lparr>content = None, response_model = [],
                                                    usage = None\<rparr>"
                          and ?e0.0 = "APIError (Some 503) None []"
                          and ?e1.0 = "APIError (Some 503) None []"
                          and response = "\<lparr>content = None, response_model = [], usage = None\<rparr>"]
    by simp
qed


section \<open>The confidence of a parsed response\<close>

lemmas class_defs = is_digit_def is_upper_def is_lower_def is_letter_def is_word_def is_space_def
  lower_unit_def canonicalize_def

lemmas parse_defs = parseExtractionResponse_def match_def replace_empty_def language_at_def
  language_line_at_def confidence_at_def confidence_line_at_def number_at_def
  trim_def toLowerCase_def parseFloat_def digits_value_def digit_value_def
  detectLanguageFromText_def estimateConfidence_def some_def

lemma parse_estimated_range:
  "match confidence_at text = None \<Longrightarrow>
   0 \<le> confidence (parseExtractionResponse text) \<and> confidence (parseExtractionResponse text) \<le> 100"
  using estimateConfidence_range
  by (simp add: parseExtractionResponse_def Let_def split: option.splits prod.splits)


text \<open>
  C1. The response "INVOICE #1023", "LANGUAGE: en", "CONFIDENCE: 150" on three lines is
  parsed to the confidence 150: the number after the marker is taken as it is, where the
  estimate used without a marker is clamped to 0 to 100.
\<close>

theorem parse_confidence_marker_unclamped:
  "parseExtractionResponse
     (jstr ''INVOICE #1023'' @ [0x0A] @ jstr ''LANGUAGE: en'' @ [0x0A] @ jstr ''CONFIDENCE: 150'')
     = \<lparr>extractedText = jstr ''INVOICE #1023'', language = jstr ''en'', confidence = 150\<rparr>
   \<and> \<not> (confidence (parseExtractionResponse
          (jstr ''INVOICE #1023'' @ [0x0A] @ jstr ''LANGUAGE: en'' @ [0x0A]
           @ jstr ''CONFIDENCE: 150'')) \<le> 100)"
  by (simp add: jstr_def parse_defs class_defs)


section \<open>Image normalisation never fails\<close>

lemma faithful_return: "faithful sh (return a)"
  by (simp add: faithful_def return_def)

lemma faithful_bind:
  assumes "faithful sh m" and "\<And>a. faithful sh (f a)"
  shows "faithful sh (bind m f)"
  unfolding faithful_def
proof
  fix tr
  from assms(1) obtain cs1 where m: "snd (m tr) = tr @ cs1"
      "isl (fst (m tr)) \<longleftrightarrow> (\<exists>c\<in>set cs1. threw sh c)"
    unfolding faithful_def by blast
  show "\<exists>cs. snd (bind m f tr) = tr @ cs \<and> (isl (fst (bind m f tr)) \<longleftrightarrow> (\<exists>c\<in>set cs. threw sh c))"
  proof (cases "fst (m tr)")
    case (Inl e)
    then have "bind m f tr = (Inl e, tr @ cs1)"
      using m(1) by (cases "m tr") (simp add: bind_def)
    with m(2) Inl show ?thesis by auto
  next
    case (Inr a)
    then have b: "bind m f tr = f a (tr @ cs1)"
      using m(1) by (cases "m tr") (simp add: bind_def)
    from assms(2) [of a] obtain cs2 where f: "snd (f a (tr @ cs1)) = (tr @ cs1) @ cs2"
      "isl (fst (f a (tr @ cs1))) \<longleftrightarrow> (\<exists>c\<in>set cs2. threw sh c)"
      unfolding faithful_def by blast
    from Inr m(2) have "\<not> (\<exists>c\<in>set cs1. threw sh c)" by simp
    with f b have "snd (bind m f tr) = tr @ (cs1 @ cs2)
       \<and> (isl (fst (bind m f tr)) \<longleftrightarrow> (\<exists>c\<in>set (cs1 @ cs2). threw sh c))"
      by auto
    then show ?thesis by blast
  qed
qed

lemma faithful_ops:
  "faithful sh (op_sharp sh b)"
  "faithful sh (op_metadata sh i)"
  "faithful sh (op_resize sh i w h)"
  "faithful sh (op_jpeg sh i q)"
  "faithful sh (op_webp sh i q)"
  "faithful sh (op_toBuffer sh i)"
  by (simp_all add: faithful_def invoke_def op_sharp_def op_metadata_def op_resize_def
      op_jpeg_def op_webp_def op_toBuffer_def)

lemma faithful_if:
  "faithful sh m \<Longrightarrow> faithful sh n \<Longrightarrow> faithful sh (if b then m else n)"
  by simp

lemma faithful_probe: "faithful sh (probe sh buffer mimeType maxDimension)"
  unfolding probe_def
  by (intro faithful_bind faithful_ops faithful_return)

lemma faithful_encode: "faithful sh (encode sh img mimeType buffer quality)"
  unfolding encode_def
  by (intro faithful_if faithful_bind faithful_ops faithful_return)

lemma faithful_reduce: "faithful sh (reduce sh buffer outputMimeType maxDimension quality)"
  unfolding reduce_def Let_def
  by (intro faithful_if faithful_bind faithful_ops faithful_return)

lemma faithful_recompress:
  "faithful sh (recompress sh buffer mimeType maxSize maxDimension quality)"
  unfolding recompress_def Let_def case_prod_beta
  by (intro faithful_if faithful_bind faithful_ops faithful_return faithful_encode faithful_reduce)

lemma faithfulD:
  assumes "faithful sh m" and "m tr = (res, tr')"
  obtains cs where "tr' = tr @ cs" and "isl res \<longleftrightarrow> (\<exists>c\<in>set cs. threw sh c)"
  using assms unfolding faithful_def by (metis fst_conv snd_conv)


lemmas compress_defs = compressImageIfNeeded_def recompress_def probe_def encode_def reduce_def
  bind_def invoke_def return_def op_sharp_def op_metadata_def op_resize_def op_jpeg_def
  op_webp_def op_toBuffer_def or_default_def MAX_IMAGE_SIZE_def MAX_IMAGE_DIMENSION_def Let_def


text \<open>
  C5. Whatever the image library does, \<open>compressImageIfNeeded\<close> returns a result: its
  value has no error alternative. If any call it made to the library threw, the result is
  the buffer it was given, unchanged, with the MIME type it was given and no dimensions.
\<close>

theorem compress_falls_back:
  assumes run: "compressImageIfNeeded sh buffer mimeType options tr = (r, tr')"
  shows "\<exists>cs. tr' = tr @ cs
           \<and> ((\<exists>c\<in>set cs. threw sh c) \<longrightarrow>
                r = \<lparr>result_buffer = buffer, result_mimeType = mimeType,
                     result_width = None, result_height = None\<rparr>)"
proof -
  let ?maxSize = "or_default (options_maxSize options) MAX_IMAGE_SIZE"
  let ?maxDimension = "or_default (options_maxDimension options) MAX_IMAGE_DIMENSION"
  let ?quality = "or_default (options_quality options) 85"
  let ?original = "\<lparr>result_buffer = buffer, result_mimeType = mimeType,
                     result_width = None, result_height = None\<rparr>"
  let ?second = "\<lambda>t. case recompress sh buffer mimeType ?maxSize ?maxDimension ?quality t of
                            (Inl error, t') \<Rightarrow> (?original, t')
                          | (Inr r, t') \<Rightarrow> (r, t')"
  have second: "\<exists>cs. t' = t @ cs \<and> ((\<exists>c\<in>set cs. threw sh c) \<longrightarrow> r = ?original)"
    if "?second t = (r, t')" for t t'
  proof -
    obtain res t2 where rc: "recompress sh buffer mimeType ?maxSize ?maxDimension ?quality t = (res, t2)"
      by (cases "recompress sh buffer mimeType ?maxSize ?maxDimension ?quality t")
    from faithfulD [OF faithful_recompress rc] obtain cs where
      cs: "t2 = t @ cs" "isl res \<longleftrightarrow> (\<exists>c\<in>set cs. threw sh c)" by blast
    show ?thesis
    proof (cases res)
      case (Inl e)
      with that rc have "r = ?original" "t' = t2" by simp_all
      with cs show ?thesis by blast
    next
      case (Inr v)
      with that rc have "t' = t2" by simp
      with cs Inr show ?thesis by auto
    qed
  qed
  show ?thesis
  proof (cases "int (length buffer) \<le> ?maxSize")
    case False
    with run have "?second tr = (r, tr')"
      by (simp add: compressImageIfNeeded_def Let_def)
    then show ?thesis by (rule second)
  next
    case True
    obtain res t1 where pr: "probe sh buffer mimeType ?maxDimension tr = (res, t1)"
      by (cases "probe sh buffer mimeType ?maxDimension tr")
    from faithfulD [OF faithful_probe pr] obtain cs1 where
      cs1: "t1 = tr @ cs1" "isl res \<longleftrightarrow> (\<exists>c\<in>set cs1. threw sh c)" by blast
    show ?thesis
    proof (cases res)
      case (Inl e)
      with run True pr have "r = ?original" "tr' = t1"
        by (simp_all add: compressImageIfNeeded_def Let_def)
      with cs1 show ?thesis by blast
    next
      case (Inr v)
      show ?thesis
      proof (cases v)
        case (Some r1)
        with run True pr Inr have "tr' = t1"
          by (simp add: compressImageIfNeeded_def Let_def)
        with cs1 Inr show ?thesis by auto
      next
        case None
        with run True pr Inr have "?second t1 = (r, tr')"
          by (simp add: compressImageIfNeeded_def Let_def)
        from second [OF this] obtain cs2 where
          cs2: "tr' = t1 @ cs2" "(\<exists>c\<in>set cs2. threw sh c) \<longrightarrow> r = ?original" by blast
        from cs1 Inr have "\<not> (\<exists>c\<in>set cs1. threw sh c)" by simp
        with cs1 cs2 have "tr' = tr @ (cs1 @ cs2)
            \<and> ((\<exists>c\<in>set (cs1 @ cs2). threw sh c) \<longrightarrow> r = ?original)"
          by auto
        then show ?thesis by blast
      qed
    qed
  qed
qed

theorem compress_falls_back_witness:
  "fst (compressImageIfNeeded
         \<lparr>sharp_new = (\<lambda>b. Inr (0::nat)),
          sharp_metadata = (\<lambda>i. Inr \<lparr>meta_width = Some 4000, meta_height = Some 3000\<rparr>),
          sharp_resize = (\<lambda>i w h. Inr i), sharp_jpeg = (\<lambda>i q. Inr (nat q)),
          sharp_webp = (\<lambda>i q. Inr (nat q)), sharp_toBuffer = (\<lambda>i. Inl (Exn []))\<rparr>
         [1, 2, 3] (jstr ''image/jpeg'')
         \<lparr>options_maxSize = Some 1, options_maxDimension = None, options_quality = None\<rparr> [])
     = \<lparr>result_buffer = [1, 2, 3], result_mimeType = jstr ''image/jpeg'',
        result_width = None, result_height = None\<rparr>"
proof -
  let ?sh = "\<lparr>sharp_new = (\<lambda>b. Inr (0::nat)),
          sharp_metadata = (\<lambda>i. Inr \<lparr>meta_width = Some 4000, meta_height = Some 3000\<rparr>),
          sharp_resize = (\<lambda>i w h. Inr i), sharp_jpeg = (\<lambda>i q. Inr (nat q)),
          sharp_webp = (\<lambda>i q. Inr (nat q)), sharp_toBuffer = (\<lambda>i. Inl (Exn []))\<rparr>"
  let ?run = "compressImageIfNeeded ?sh [1, 2, 3] (jstr ''image/jpeg'')
         \<lparr>options_maxSize = Some 1, options_maxDimension = None, options_quality = None\<rparr> []"
  have tr: "snd ?run = [Sharp [1, 2, 3], Metadata 0, Resize 0 2048 2048, Jpeg 0 85, ToBuffer 85]"
    by (simp add: compress_defs jstr_def)
  have run: "?run = (fst ?run, snd ?run)"
    by simp
  from compress_falls_back [OF run] tr show ?thesis
    by simp
qed


section \<open>The second compression pass\<close>

lemma bind_Inr:
  assumes "bind m f tr = (Inr b, tr')"
  obtains a tr1 where "m tr = (Inr a, tr1)" and "f a tr1 = (Inr b, tr')"
  using assms by (auto simp: bind_def split: prod.splits sum.splits)

lemma invoke_Inr:
  assumes "invoke c out tr = (Inr a, tr')"
  shows "out = Inr a \<and> tr' = tr @ [c]"
  using assms by (auto simp: invoke_def)

lemma return_Inr:
  assumes "return a tr = (Inr b, tr')"
  shows "b = a \<and> tr' = tr"
  using assms by (auto simp: return_def)

lemma encode_Inr:
  assumes "encode sh img mimeType buffer quality tr = (Inr (img', out), tr')"
  shows "\<exists>cs. tr' = tr @ cs \<and> filter is_toBuffer cs = []"
  using assms unfolding encode_def op_jpeg_def op_webp_def
  by (auto split: if_splits elim!: bind_Inr dest!: invoke_Inr return_Inr)

lemma reduce_Inr:
  assumes "reduce sh buffer out maxDimension quality tr = (Inr b2, tr')"
  shows "\<exists>i0 i2 i3 cs. tr' = tr @ cs \<and> filter is_toBuffer cs = [ToBuffer i3]
           \<and> sharp_new sh buffer = Inr i0
           \<and> sharp_resize sh i0 maxDimension maxDimension = Inr i2
           \<and> (if out = jstr ''image/jpeg'' \<or> out = jstr ''image/jpg''
                then sharp_jpeg sh i2 (max 50 (quality - 20))
                else sharp_webp sh i2 (max 50 (quality - 20))) = Inr i3
           \<and> sharp_toBuffer sh i3 = Inr b2"
  using assms unfolding reduce_def Let_def op_sharp_def op_resize_def op_jpeg_def op_webp_def op_toBuffer_def
  by (auto split: if_splits elim!: bind_Inr dest!: invoke_Inr return_Inr)

lemma recompress_Inr:
  assumes "recompress sh buffer mimeType maxSize maxDimension quality tr = (Inr r, tr')"
  shows "\<exists>i1 b1 cs. tr' = tr @ cs \<and> sharp_toBuffer sh i1 = Inr b1
           \<and> (if int (length b1) > maxSize \<and> quality > 50
                then \<exists>i0 i2 i3. filter is_toBuffer cs = [ToBuffer i1, ToBuffer i3]
                       \<and> sharp_new sh buffer = Inr i0
                       \<and> sharp_resize sh i0 maxDimension maxDimension = Inr i2
                       \<and> (if result_mimeType r = jstr ''image/jpeg'' \<or> result_mimeType r = jstr ''image/jpg''
                            then sharp_jpeg sh i2 (max 50 (quality - 20))
                            else sharp_webp sh i2 (max 50 (quality - 20))) = Inr i3
                       \<and> sharp_toBuffer sh i3 = Inr (result_buffer r)
                else filter is_toBuffer cs = [ToBuffer i1] \<and> result_buffer r = b1)"
proof -
  from assms obtain img0 t1 md t2 img1 t3 img2 out t4 cb1 t5 cb2 t6 fin t7 fmd where
    1: "op_sharp sh buffer tr = (Inr img0, t1)" and
    2: "op_metadata sh img0 t1 = (Inr md, t2)" and
    3: "(if or_default (meta_width md) 0 > maxDimension \<or> or_default (meta_height md) 0 > maxDimension
           then op_resize sh img0 maxDimension maxDimension else return img0) t2 = (Inr img1, t3)" and
    4: "encode sh img1 mimeType buffer quality t3 = (Inr (img2, out), t4)" and
    5: "op_toBuffer sh img2 t4 = (Inr cb1, t5)" and
    6: "(if int (length cb1) > maxSize \<and> quality > 50
           then reduce sh buffer out maxDimension quality else return cb1) t5 = (Inr cb2, t6)" and
    7: "op_sharp sh cb2 t6 = (Inr fin, t7)" and
    8: "op_metadata sh fin t7 = (Inr fmd, tr')" and
    r: "r = \<lparr>result_buffer = cb2, result_mimeType = out,
             result_width = meta_width fmd, result_height = meta_height fmd\<rparr>"
    unfolding recompress_def Let_def
    by (auto elim!: bind_Inr dest!: return_Inr)
  from 1 2 have t2: "t2 = tr @ [Sharp buffer, Metadata img0]"
    by (auto simp: op_sharp_def op_metadata_def dest!: invoke_Inr)
  from 3 obtain c3 where t3: "t3 = t2 @ c3" "filter is_toBuffer c3 = []"
    by (auto simp: op_resize_def split: if_splits dest!: invoke_Inr return_Inr)
  from encode_Inr [OF 4] obtain c4 where t4: "t4 = t3 @ c4" "filter is_toBuffer c4 = []"
    by blast
  from 5 have t5: "t5 = t4 @ [ToBuffer img2]" and b1: "sharp_toBuffer sh img2 = Inr cb1"
    by (auto simp: op_toBuffer_def dest!: invoke_Inr)
  from 7 8 have t8: "tr' = t6 @ [Sharp cb2, Metadata fin]"
    by (auto simp: op_sharp_def op_metadata_def dest!: invoke_Inr)
  show ?thesis
  proof (cases "int (length cb1) > maxSize \<and> quality > 50")
    case True
    with 6 have "reduce sh buffer out maxDimension quality t5 = (Inr cb2, t6)" by simp
    from reduce_Inr [OF this] obtain i0 i2 i3 c6 where
      c6: "t6 = t5 @ c6" "filter is_toBuffer c6 = [ToBuffer i3]"
        "sharp_new sh buffer = Inr i0" "sharp_resize sh i0 maxDimension maxDimension = Inr i2"
        "(if out = jstr ''image/jpeg'' \<or> out = jstr ''image/jpg''
                then sharp_jpeg sh i2 (max 50 (quality - 20))
                else sharp_webp sh i2 (max 50 (quality - 20))) = Inr i3"
        "sharp_toBuffer sh i3 = Inr cb2"
      by blast
    have "tr' = tr @ ([Sharp buffer, Metadata img0] @ c3 @ c4 @ [ToBuffer img2] @ c6
                      @ [Sharp cb2, Metadata fin])"
      using t2 t3 t4 t5 c6(1) t8 by simp
    moreover have "filter is_toBuffer ([Sharp buffer, Metadata img0] @ c3 @ c4 @ [ToBuffer img2] @ c6
                      @ [Sharp cb2, Metadata fin]) = [ToBuffer img2, ToBuffer i3]"
      using t3(2) t4(2) c6(2) by simp
    ultimately show ?thesis
      using True b1 c6(3-6) r by (intro exI [of _ img2] exI [of _ cb1] exI conjI) auto
  next
    case False
    with 6 have "cb2 = cb1" "t6 = t5" by (auto dest!: return_Inr)
    then have "tr' = tr @ ([Sharp buffer, Metadata img0] @ c3 @ c4 @ [ToBuffer img2]
                      @ [Sharp cb2, Metadata fin])"
      using t2 t3 t4 t5 t8 by simp
    moreover have "filter is_toBuffer ([Sharp buffer, Metadata img0] @ c3 @ c4 @ [ToBuffer img2]
                      @ [Sharp cb2, Metadata fin]) = [ToBuffer img2]"
      using t3(2) t4(2) by simp
    ultimately show ?thesis
      using False b1 r \<open>cb2 = cb1\<close> by (intro exI [of _ img2] exI [of _ cb1] exI conjI) auto
  qed
qed

lemma probe_trace:
  assumes "probe sh buffer mimeType maxDimension tr = (res, tr')"
  shows "\<exists>cs. tr' = tr @ cs \<and> filter is_toBuffer cs = []"
  using assms unfolding probe_def bind_def op_sharp_def op_metadata_def invoke_def return_def
  by (auto split: sum.splits prod.splits)


text \<open>
  C6. Take a run in which no call to the image library threw, and let \<open>b1\<close> be the
  output of its first \<open>toBuffer\<close> call. If \<open>b1\<close> is longer than \<open>maxSize\<close> and the
  quality is above 50, there is exactly one more \<open>toBuffer\<close> call, on the original buffer
  resized to \<open>maxDimension\<close> and encoded at quality \<open>max 50 (quality - 20)\<close>, and its
  output is the buffer returned. If the quality is 50 or below, or \<open>b1\<close> fits, there is
  no further \<open>toBuffer\<close> call and \<open>b1\<close> is returned.
\<close>

theorem second_pass:
  assumes run: "compressImageIfNeeded sh buffer mimeType options [] = (r, tr)"
    and ok: "\<forall>c\<in>set tr. \<not> threw sh c"
    and first: "filter is_toBuffer tr = ToBuffer i1 # rest"
    and out1: "sharp_toBuffer sh i1 = Inr b1"
  shows "(or_default (options_maxSize options) MAX_IMAGE_SIZE < int (length b1)
          \<and> 50 < or_default (options_quality options) 85 \<longrightarrow>
            (\<exists>i0 i2 i3.
               rest = [ToBuffer i3]
               \<and> sharp_new sh buffer = Inr i0
               \<and> sharp_resize sh i0 (or_default (options_maxDimension options) MAX_IMAGE_DIMENSION)
                    (or_default (options_maxDimension options) MAX_IMAGE_DIMENSION) = Inr i2
               \<and> (if result_mimeType r = jstr ''image/jpeg'' \<or> result_mimeType r = jstr ''image/jpg''
                   then sharp_jpeg sh i2 (max 50 (or_default (options_quality options) 85 - 20))
                   else sharp_webp sh i2 (max 50 (or_default (options_quality options) 85 - 20)))
                  = Inr i3
               \<and> sharp_toBuffer sh i3 = Inr (result_buffer r)))
       \<and> (or_default (options_quality options) 85 \<le> 50
          \<or> int (length b1) \<le> or_default (options_maxSize options) MAX_IMAGE_SIZE \<longrightarrow>
            rest = [] \<and> result_buffer r = b1)"
proof -
  let ?maxSize = "or_default (options_maxSize options) MAX_IMAGE_SIZE"
  let ?maxDimension = "or_default (options_maxDimension options) MAX_IMAGE_DIMENSION"
  let ?quality = "or_default (options_quality options) 85"
  let ?original = "\<lparr>result_buffer = buffer, result_mimeType = mimeType,
                     result_width = None, result_height = None\<rparr>"
  let ?rc = "recompress sh buffer mimeType ?maxSize ?maxDimension ?quality"
  have "\<exists>t0. filter is_toBuffer t0 = [] \<and> ?rc t0 = (Inr r, tr)"
  proof (cases "int (length buffer) \<le> ?maxSize")
    case False
    obtain res t2 where rc: "?rc [] = (res, t2)" by (cases "?rc []")
    from faithfulD [OF faithful_recompress rc] obtain cs where
      cs: "t2 = [] @ cs" "isl res \<longleftrightarrow> (\<exists>c\<in>set cs. threw sh c)" by blast
    from run False rc have "tr = t2"
      by (auto simp: compressImageIfNeeded_def Let_def split: sum.splits)
    with cs ok have "\<not> isl res" by simp
    with run False rc have "?rc [] = (Inr r, tr)"
      by (auto simp: compressImageIfNeeded_def Let_def split: sum.splits)
    then show ?thesis by (intro exI [of _ "[]"]) simp
  next
    case True
    obtain res t1 where pr: "probe sh buffer mimeType ?maxDimension [] = (res, t1)"
      by (cases "probe sh buffer mimeType ?maxDimension []")
    from probe_trace [OF pr] have t1: "filter is_toBuffer t1 = []" by auto
    show ?thesis
    proof (cases res)
      case (Inl e)
      with run True pr have "tr = t1"
        by (simp add: compressImageIfNeeded_def Let_def)
      with t1 first show ?thesis by simp
    next
      case (Inr v)
      show ?thesis
      proof (cases v)
        case (Some r1)
        with run True pr Inr have "tr = t1"
          by (simp add: compressImageIfNeeded_def Let_def)
        with t1 first show ?thesis by simp
      next
        case None
        obtain res2 t2 where rc: "?rc t1 = (res2, t2)" by (cases "?rc t1")
        from faithfulD [OF faithful_recompress rc] obtain cs where
          cs: "t2 = t1 @ cs" "isl res2 \<longleftrightarrow> (\<exists>c\<in>set cs. threw sh c)" by blast
        from run True pr Inr None rc have "tr = t2"
          by (auto simp: compressImageIfNeeded_def Let_def split: sum.splits)
        with cs ok have "\<not> isl res2" by simp
        with run True pr Inr None rc have "?rc t1 = (Inr r, tr)"
          by (auto simp: compressImageIfNeeded_def Let_def split: sum.splits)
        with t1 show ?thesis by blast
      qed
    qed
  qed
  then obtain t0 where t0: "filter is_toBuffer t0 = []" and rc: "?rc t0 = (Inr r, tr)"
    by blast
  from recompress_Inr [OF rc] obtain j1 c1 cs where
    cs: "tr = t0 @ cs" "sharp_toBuffer sh j1 = Inr c1"
      "if ?maxSize < int (length c1) \<and> 50 < ?quality
       then \<exists>i0 i2 i3. filter is_toBuffer cs = [ToBuffer j1, ToBuffer i3]
              \<and> sharp_new sh buffer = Inr i0
              \<and> sharp_resize sh i0 ?maxDimension ?maxDimension = Inr i2
              \<and> (if result_mimeType r = jstr ''image/jpeg'' \<or> result_mimeType r = jstr ''image/jpg''
                  then sharp_jpeg sh i2 (max 50 (?quality - 20))
                  else sharp_webp sh i2 (max 50 (?quality - 20))) = Inr i3
              \<and> sharp_toBuffer sh i3 = Inr (result_buffer r)
       else filter is_toBuffer cs = [ToBuffer j1] \<and> result_buffer r = c1"
    by blast
  have fl: "filter is_toBuffer tr = filter is_toBuffer cs"
    using cs(1) t0 by simp
  have "j1 = i1"
    using cs(3) first fl by (auto split: if_splits)
  with cs(2) out1 have "c1 = b1" by simp
  show ?thesis
    using cs(3) first fl \<open>j1 = i1\<close> \<open>c1 = b1\<close> by (auto split: if_splits)
qed

theorem second_pass_witness:
  "result_buffer (fst (compressImageIfNeeded
         \<lparr>sharp_new = (\<lambda>b. Inr (0::nat)),
          sharp_metadata = (\<lambda>i. Inr \<lparr>meta_width = Some 4000, meta_height = Some 3000\<rparr>),
          sharp_resize = (\<lambda>i w h. Inr i), sharp_jpeg = (\<lambda>i q. Inr (nat q)),
          sharp_webp = (\<lambda>i q. Inr (nat q)), sharp_toBuffer = (\<lambda>i. Inr [of_nat i, 0])\<rparr>
         [1, 2, 3] (jstr ''image/jpeg'')
         \<lparr>options_maxSize = Some 1, options_maxDimension = None, options_quality = None\<rparr> []))
     = [65, 0]"
proof -
  let ?sh = "\<lparr>sharp_new = (\<lambda>b. Inr (0::nat)),
          sharp_metadata = (\<lambda>i. Inr \<lparr>meta_width = Some 4000, meta_height = Some 3000\<rparr>),
          sharp_resize = (\<lambda>i w h. Inr i), sharp_jpeg = (\<lambda>i q. Inr (nat q)),
          sharp_webp = (\<lambda>i q. Inr (nat q)), sharp_toBuffer = (\<lambda>i. Inr [of_nat i, 0])\<rparr>"
  let ?opts = "\<lparr>options_maxSize = Some 1, options_maxDimension = None, options_quality = None\<rparr>"
  let ?run = "compressImageIfNeeded ?sh [1, 2, 3] (jstr ''image/jpeg'') ?opts []"
  have tr: "snd ?run = [Sharp [1, 2, 3], Metadata 0, Resize 0 2048 2048, Jpeg 0 85, ToBuffer 85,
                        Sharp [1, 2, 3], Resize 0 2048 2048, Jpeg 0 65, ToBuffer 65,
                        Sharp [65, 0], Metadata 0]"
    by (simp add: compress_defs jstr_def)
  have run: "?run = (fst ?run, snd ?run)"
    by simp
  have ok: "\<forall>c\<in>set (snd ?run). \<not> threw ?sh c"
    unfolding tr by simp
  have first: "filter is_toBuffer (snd ?run) = ToBuffer 85 # [ToBuffer 65]"
    unfolding tr by simp
  have out1: "sharp_toBuffer ?sh 85 = Inr [85, 0]"
    by simp
  from second_pass [OF run ok first out1] show ?thesis
    by (simp add: or_default_def MAX_IMAGE_DIMENSION_def)
qed


section \<open>Markers in a parsed response\<close>





























lemma all_drop_Nil: "(\<forall>i. P (drop i [])) \<longleftrightarrow> P []"
  by simp







end
